theory Spec2Isabelle
  imports Main "HOL-Library.Char_ord" "HOL-Library.List_Lexorder" "HOL-Library.Product_Lexorder"
    "HOL-Library.Multiset"
begin

section \<open>Flight Routes System: data model\<close>

text \<open>
  The two tables of \<^verbatim>\<open>routes/models.py\<close>. An airport row has the columns
  \<^verbatim>\<open>code\<close> (primary key), \<^verbatim>\<open>name\<close> and \<^verbatim>\<open>position\<close>. A route row has the
  automatic primary key (here \<open>pk\<close>), the two foreign keys, stored as the code of
  the airport they refer to, \<^verbatim>\<open>distance\<close> and \<^verbatim>\<open>created_at\<close>. Python integers are
  unbounded, hence \<open>int\<close>. Strings are lists of 8-bit characters: the embedding covers
  ASCII input.

  A table is the list of its rows in storage order; the database is the two tables
  and the counter of the automatic key.
\<close>

record airport =
  code :: string
  name :: string
  position :: int

record route =
  pk :: nat
  source :: string
  destination :: string
  distance :: int
  created_at :: nat

record db =
  airports :: "airport list"
  routes :: "route list"
  next_pk :: nat

definition empty_db :: db where
  "empty_db = \<lparr>airports = [], routes = [], next_pk = 1\<rparr>"

subsection \<open>Query sets\<close>

text \<open>
  \<^verbatim>\<open>order_by\<close> is a stable sort of the rows, \<^verbatim>\<open>first()\<close> the head of the result or
  \<^verbatim>\<open>None\<close>. \<^verbatim>\<open>Airport.objects\<close> carries the \<^verbatim>\<open>Meta.ordering = ['position']\<close> of the
  model, so every airport query without an \<^verbatim>\<open>order_by\<close> of its own is sorted by position.
\<close>

definition order_by :: "('a \<Rightarrow> 'k::linorder) \<Rightarrow> 'a list \<Rightarrow> 'a list" where
  "order_by key rows = sort_key key rows"

definition qs_first :: "'a list \<Rightarrow> 'a option" where
  "qs_first rows = (case rows of [] \<Rightarrow> None | r # _ \<Rightarrow> Some r)"

definition Airport_objects :: "db \<Rightarrow> airport list" where
  "Airport_objects d = order_by position (airports d)"

text \<open>
  \<^verbatim>\<open>Route.objects\<close>: the model orders routes by \<^verbatim>\<open>-created_at\<close>, but every query of
  the routes made here either gives an \<^verbatim>\<open>order_by\<close> of its own, which replaces that
  order, or does not depend on the order (\<^verbatim>\<open>aggregate\<close>, \<^verbatim>\<open>exists\<close>, \<^verbatim>\<open>count\<close>, a lookup
  by primary key), so the rows are taken in storage order.
\<close>

definition Route_objects :: "db \<Rightarrow> route list" where
  "Route_objects d = routes d"

text \<open>The reverse relations \<^verbatim>\<open>outgoing_routes\<close> and \<^verbatim>\<open>incoming_routes\<close> of an airport.\<close>

definition outgoing_routes :: "db \<Rightarrow> airport \<Rightarrow> route list" where
  "outgoing_routes d a = filter (\<lambda>r. source r = code a) (routes d)"

definition incoming_routes :: "db \<Rightarrow> airport \<Rightarrow> route list" where
  "incoming_routes d a = filter (\<lambda>r. destination r = code a) (routes d)"

subsection \<open>Python exceptions and form errors\<close>

text \<open>
  A validation message is kept as a tag with the data its text interpolates. A form's
  errors are pairs of the field name (\<^verbatim>\<open>__all__\<close> for an error of the whole form) and
  the message.
\<close>

datatype msg =
  Required | Invalid | InvalidChoice | MinValue | MinLength | MaxLength | NullCharacters
  | Blank | Null | OutOfRange | Unique | UniqueTogether
  | CodeLength | CodeLetters | PositionTaken int string string
  | SameAirports | RouteExists string string | DistancePositive

type_synonym errors = "(string \<times> msg) list"

datatype exn =
  ValidationError errors
  | RelatedObjectDoesNotExist string
  | TypeError
  | Http404

subsection \<open>Form fields\<close>

text \<open>
  The posted value of an integer field: absent or empty, text that is no integer, or
  an integer.
\<close>

datatype int_input = NoInput | NotAnInteger | IntegerInput int

text \<open>
  \<^verbatim>\<open>forms.IntegerField(min_value=1)\<close>, a required field: the value is parsed, then
  checked against the minimum.
\<close>

definition IntegerField_clean :: "int_input \<Rightarrow> msg + int" where
  "IntegerField_clean v =
     (case v of
        NoInput \<Rightarrow> Inl Required
      | NotAnInteger \<Rightarrow> Inl Invalid
      | IntegerInput i \<Rightarrow> if i < 1 then Inl MinValue else Inr i)"

text \<open>
  \<^verbatim>\<open>forms.ModelChoiceField(queryset=Airport.objects.all().order_by('code'))\<close>, a
  required field: the posted value is the primary key of the airport chosen.
\<close>

definition ModelChoiceField_clean :: "db \<Rightarrow> string \<Rightarrow> msg + airport" where
  "ModelChoiceField_clean d v =
     (if v = [] then Inl Required
      else case find (\<lambda>a. code a = v) (order_by code (Airport_objects d)) of
             None \<Rightarrow> Inl InvalidChoice
           | Some a \<Rightarrow> Inr a)"

text \<open>\<^verbatim>\<open>forms.ChoiceField(choices=DIRECTION_CHOICES)\<close>, a required field.\<close>

definition DIRECTION_CHOICES :: "string list" where
  "DIRECTION_CHOICES = [''left'', ''right'']"

definition ChoiceField_clean :: "string \<Rightarrow> msg + string" where
  "ChoiceField_clean v =
     (if v = [] then Inl Required
      else if v \<in> set DIRECTION_CHOICES then Inr v
      else Inl InvalidChoice)"

definition field_errors :: "string \<Rightarrow> msg + 'a \<Rightarrow> errors" where
  "field_errors fname r = (case r of Inl m \<Rightarrow> [(fname, m)] | Inr _ \<Rightarrow> [])"

section \<open>The Nth-node search\<close>

record search_post =
  post_starting_airport :: string
  post_direction :: string
  post_n :: int_input

record search_cleaned =
  starting_airport :: airport
  direction :: string
  n :: int

text \<open>
  \<^verbatim>\<open>SearchForm\<close>: the three fields are cleaned in the order of their declaration; the
  form is valid when none of them reports an error.
\<close>

definition SearchForm_full_clean :: "db \<Rightarrow> search_post \<Rightarrow> errors + search_cleaned" where
  "SearchForm_full_clean d p =
     (let a = ModelChoiceField_clean d (post_starting_airport p);
          dir = ChoiceField_clean (post_direction p);
          k = IntegerField_clean (post_n p)
      in case (a, dir, k) of
           (Inr a', Inr dir', Inr k') \<Rightarrow>
             Inr \<lparr>starting_airport = a', direction = dir', n = k'\<rparr>
         | _ \<Rightarrow>
             Inl (field_errors ''starting_airport'' a @ field_errors ''direction'' dir
                  @ field_errors ''n'' k))"

record search_result =
  res_starting_airport :: airport
  res_direction :: string
  res_n :: int
  target_airport :: airport
  start_position :: int
  target_position :: int

record search_context =
  form_errors :: errors
  result :: "search_result option"
  error_message :: "int option"

text \<open>
  The body of \<^verbatim>\<open>NthNodeSearchView.post\<close> for a valid form. The error message
  \<^verbatim>\<open>No airport found at position ...\<close> is kept as the position it names.
\<close>

definition nth_node_search :: "db \<Rightarrow> search_cleaned \<Rightarrow> search_context" where
  "nth_node_search d c =
     (let start_position = position (starting_airport c);
          target_position =
            (if direction c = ''left'' then start_position - n c else start_position + n c)
      in case qs_first (filter (\<lambda>a. position a = target_position) (Airport_objects d)) of
           Some t \<Rightarrow>
             \<lparr>form_errors = [],
              result = Some \<lparr>res_starting_airport = starting_airport c,
                             res_direction = direction c, res_n = n c, target_airport = t,
                             start_position = start_position,
                             target_position = target_position\<rparr>,
              error_message = None\<rparr>
         | None \<Rightarrow>
             \<lparr>form_errors = [], result = None, error_message = Some target_position\<rparr>)"

definition NthNodeSearchView_post :: "db \<Rightarrow> search_post \<Rightarrow> search_context" where
  "NthNodeSearchView_post d p =
     (case SearchForm_full_clean d p of
        Inr c \<Rightarrow> nth_node_search d c
      | Inl errs \<Rightarrow> \<lparr>form_errors = errs, result = None, error_message = None\<rparr>)"

section \<open>The longest and the shortest route\<close>

text \<open>
  \<^verbatim>\<open>aggregate(Max('distance'))\<close> is \<^verbatim>\<open>None\<close> on an empty table. The airports of a
  route of the maximal distance come from \<^verbatim>\<open>Airport.objects\<close>, so they are sorted
  by position, and \<^verbatim>\<open>first()\<close> takes the head.
\<close>

definition aggregate_Max :: "int list \<Rightarrow> int option" where
  "aggregate_Max xs = (case xs of [] \<Rightarrow> None | x # ys \<Rightarrow> Some (fold max ys x))"

definition get_longest_distance_airport :: "db \<Rightarrow> airport option \<times> int option" where
  "get_longest_distance_airport d =
     (case aggregate_Max (map distance (Route_objects d)) of
        None \<Rightarrow> (None, None)
      | Some max_distance \<Rightarrow>
          (let airports_with_max_distance =
                 remdups (filter (\<lambda>a. list_ex (\<lambda>r. distance r = max_distance) (outgoing_routes d a)
                                     \<or> list_ex (\<lambda>r. distance r = max_distance) (incoming_routes d a))
                            (Airport_objects d))
           in (qs_first airports_with_max_distance, Some max_distance)))"

definition get_shortest_route :: "db \<Rightarrow> route option" where
  "get_shortest_route d = qs_first (order_by distance (Route_objects d))"

record shortest_context =
  shortest_route :: "route option"
  shortest_distance :: "int option"
  shortest_routes :: "route list"

definition ShortestRouteView_get_context_data :: "db \<Rightarrow> shortest_context" where
  "ShortestRouteView_get_context_data d =
     (case get_shortest_route d of
        Some r \<Rightarrow>
          \<lparr>shortest_route = Some r,
           shortest_distance = Some (distance r),
           shortest_routes =
             order_by (\<lambda>x. (source x, destination x))
               (filter (\<lambda>x. distance x = distance r) (Route_objects d))\<rparr>
      | None \<Rightarrow> \<lparr>shortest_route = None, shortest_distance = None, shortest_routes = []\<rparr>)"

section \<open>Strings\<close>


definition isspace :: "char \<Rightarrow> bool" where
  "isspace c = (let k = (of_char c :: nat) in (9 \<le> k \<and> k \<le> 13) \<or> (28 \<le> k \<and> k \<le> 32))"

definition strip :: "string \<Rightarrow> string" where
  "strip s = rev (dropWhile isspace (rev (dropWhile isspace s)))"

definition is_lower :: "char \<Rightarrow> bool" where
  "is_lower c = (let k = (of_char c :: nat) in 97 \<le> k \<and> k \<le> 122)"

definition is_upper :: "char \<Rightarrow> bool" where
  "is_upper c = (let k = (of_char c :: nat) in 65 \<le> k \<and> k \<le> 90)"

definition upper_char :: "char \<Rightarrow> char" where
  "upper_char c = (if is_lower c then char_of ((of_char c :: nat) - 32) else c)"

definition upper :: "string \<Rightarrow> string" where
  "upper s = map upper_char s"

definition isalpha :: "string \<Rightarrow> bool" where
  "isalpha s = (s \<noteq> [] \<and> list_all (\<lambda>c. is_lower c \<or> is_upper c) s)"

section \<open>Airport registration\<close>

text \<open>
  \<^verbatim>\<open>forms.CharField\<close>, a required field that strips the posted text. Its validators
  are, in this order, the minimal length, the maximal length and the one that refuses a
  null character; all of them run and the field reports every message.
\<close>

definition CharField_clean ::
  "nat option \<Rightarrow> nat option \<Rightarrow> string \<Rightarrow> msg list + string" where
  "CharField_clean min_length max_length v =
     (let val = strip v in
      if val = [] then Inl [Required]
      else
        (let errors =
               (case min_length of
                  Some m \<Rightarrow> if length val < m then [MinLength] else [] | None \<Rightarrow> [])
               @ (case max_length of
                    Some m \<Rightarrow> if m < length val then [MaxLength] else [] | None \<Rightarrow> [])
               @ (if char_of (0::nat) \<in> set val then [NullCharacters] else [])
         in if errors = [] then Inr val else Inl errors))"

text \<open>
  A \<^verbatim>\<open>clean_<field>\<close> method and the integer field raise one message; the errors of a
  field are each of its messages under the field's name.
\<close>

definition one_error :: "msg + 'a \<Rightarrow> msg list + 'a" where
  "one_error r = (case r of Inl m \<Rightarrow> Inl [m] | Inr v \<Rightarrow> Inr v)"

definition field_error_list :: "string \<Rightarrow> msg list + 'a \<Rightarrow> errors" where
  "field_error_list fname r = (case r of Inl ms \<Rightarrow> map (Pair fname) ms | Inr _ \<Rightarrow> [])"

record airport_post =
  post_code :: string
  post_name :: string
  post_position :: int_input

text \<open>
  An \<^verbatim>\<open>Airport\<close> object before it is stored: a field the form did not clean keeps
  the model's default, the empty string or \<^verbatim>\<open>None\<close>.
\<close>

record airport_instance =
  inst_code :: string
  inst_name :: string
  inst_position :: "int option"

definition AirportForm_clean_code :: "string \<Rightarrow> msg + string" where
  "AirportForm_clean_code c =
     (let code = strip (upper c) in
      if length code \<noteq> 3 then Inl CodeLength
      else if \<not> isalpha code then Inl CodeLetters
      else Inr code)"

text \<open>
  \<^verbatim>\<open>AirportForm.clean_position\<close>: the form's instance is new, so the query excludes
  \<^verbatim>\<open>pk=None\<close>, that is no row.
\<close>

definition AirportForm_clean_position :: "db \<Rightarrow> int \<Rightarrow> msg + int" where
  "AirportForm_clean_position d p =
     (case qs_first (filter (\<lambda>a. position a = p) (Airport_objects d)) of
        Some existing_airport \<Rightarrow>
          Inl (PositionTaken p (code existing_airport) (name existing_airport))
      | None \<Rightarrow> Inr p)"

text \<open>
  \<^verbatim>\<open>Airport.clean\<close> assigns the upper-case code to the object before it checks, so it
  returns the object with the outcome. The primary key excluded from the position
  query is the code just assigned.
\<close>

definition Airport_clean :: "db \<Rightarrow> airport_instance \<Rightarrow> airport_instance \<times> (exn + unit)" where
  "Airport_clean d self0 =
     (let self = (if inst_code self0 \<noteq> [] then self0\<lparr>inst_code := upper (inst_code self0)\<rparr>
                  else self0)
      in if inst_code self \<noteq> [] \<and> length (inst_code self) \<noteq> 3
         then (self, Inl (ValidationError [(''code'', CodeLength)]))
         else case inst_position self of
                None \<Rightarrow> (self, Inr ())
              | Some p \<Rightarrow>
                  (case qs_first (filter (\<lambda>a. position a = p \<and> code a \<noteq> inst_code self)
                                    (Airport_objects d)) of
                     Some existing_airport \<Rightarrow>
                       (self, Inl (ValidationError
                          [(''position'',
                            PositionTaken p (code existing_airport) (name existing_airport))]))
                   | None \<Rightarrow> (self, Inr ())))"

text \<open>
  The framework's \<^verbatim>\<open>Model.clean_fields\<close> for \<^verbatim>\<open>Airport\<close>: a field that is not excluded
  must not be blank or null and must pass the validators its declaration gives it
  (\<^verbatim>\<open>max_length\<close>, and for an integer the range of the database backend, which is the
  parameter \<open>rng\<close>).
\<close>

definition CharField_model_clean :: "string \<Rightarrow> nat \<Rightarrow> string list \<Rightarrow> string \<Rightarrow> errors" where
  "CharField_model_clean fname max_length exclude v =
     (if fname \<in> set exclude then []
      else if v = [] then [(fname, Blank)]
      else if max_length < length v then [(fname, MaxLength)]
      else [])"

definition IntegerField_model_clean ::
  "(int \<Rightarrow> bool) \<Rightarrow> string \<Rightarrow> string list \<Rightarrow> int option \<Rightarrow> errors" where
  "IntegerField_model_clean rng fname exclude v =
     (if fname \<in> set exclude then []
      else case v of
             None \<Rightarrow> [(fname, Null)]
           | Some i \<Rightarrow> if rng i then [] else [(fname, OutOfRange)])"

definition Airport_clean_fields :: "(int \<Rightarrow> bool) \<Rightarrow> string list \<Rightarrow> airport_instance \<Rightarrow> errors" where
  "Airport_clean_fields rng exclude self =
     CharField_model_clean ''code'' 3 exclude (inst_code self)
     @ CharField_model_clean ''name'' 100 exclude (inst_name self)
     @ IntegerField_model_clean rng ''position'' exclude (inst_position self)"

text \<open>
  The framework's \<^verbatim>\<open>Model.validate_unique\<close> for a new \<^verbatim>\<open>Airport\<close>: the columns
  declared \<^verbatim>\<open>unique=True\<close> are \<^verbatim>\<open>code\<close> and \<^verbatim>\<open>position\<close>.
\<close>

definition Airport_validate_unique :: "db \<Rightarrow> string list \<Rightarrow> airport_instance \<Rightarrow> errors" where
  "Airport_validate_unique d exclude self =
     (if ''code'' \<notin> set exclude \<and> list_ex (\<lambda>a. code a = inst_code self) (airports d)
      then [(''code'', Unique)] else [])
     @ (case inst_position self of
          None \<Rightarrow> []
        | Some p \<Rightarrow>
            if ''position'' \<notin> set exclude \<and> list_ex (\<lambda>a. position a = p) (airports d)
            then [(''position'', Unique)] else [])"

text \<open>
  The framework's \<^verbatim>\<open>Model.full_clean\<close>: \<^verbatim>\<open>clean_fields\<close>, then \<^verbatim>\<open>clean\<close> whatever the
  fields gave, then the uniqueness checks of the fields without an error. Only a
  \<^verbatim>\<open>ValidationError\<close> is collected; any other exception of \<^verbatim>\<open>clean\<close> leaves
  \<^verbatim>\<open>full_clean\<close> as it is.
\<close>

definition Airport_full_clean ::
  "(int \<Rightarrow> bool) \<Rightarrow> db \<Rightarrow> string list \<Rightarrow> bool \<Rightarrow> airport_instance
   \<Rightarrow> airport_instance \<times> (exn + unit)" where
  "Airport_full_clean rng d exclude validate_unique self0 =
     (let errors1 = Airport_clean_fields rng exclude self0;
          (self, r) = Airport_clean d self0;
          finish = (\<lambda>errs.
            let errs' = errs @ (if validate_unique
                                then Airport_validate_unique d (exclude @ map fst errs) self
                                else [])
            in if errs' = [] then Inr () else Inl (ValidationError errs'))
      in case r of
           Inr _ \<Rightarrow> (self, finish errors1)
         | Inl (ValidationError e) \<Rightarrow> (self, finish (errors1 @ e))
         | Inl x \<Rightarrow> (self, Inl x))"

datatype 'a is_valid = Raise exn | Not_valid errors | Is_valid 'a

definition sum_option :: "'e + 'a \<Rightarrow> 'a option" where
  "sum_option r = (case r of Inl _ \<Rightarrow> None | Inr v \<Rightarrow> Some v)"

text \<open>
  \<^verbatim>\<open>AirportForm.is_valid()\<close>, the \<^verbatim>\<open>full_clean\<close> of a model form. First each field
  with its \<^verbatim>\<open>clean_<field>\<close> method, which runs when the field itself is clean. Then
  the framework's \<^verbatim>\<open>_post_clean\<close>: the object built from the cleaned fields goes through
  \<^verbatim>\<open>Model.full_clean\<close> and the uniqueness checks, the fields with an error excluded.
\<close>

definition AirportForm_clean_fields ::
  "db \<Rightarrow> airport_post
   \<Rightarrow> (msg list + string) \<times> (msg list + string) \<times> (msg list + int)" where
  "AirportForm_clean_fields d p =
     (case CharField_clean (Some 3) (Some 3) (post_code p) of
        Inl ms \<Rightarrow> Inl ms | Inr v \<Rightarrow> one_error (AirportForm_clean_code v),
      CharField_clean None (Some 100) (post_name p),
      case IntegerField_clean (post_position p) of
        Inl m \<Rightarrow> Inl [m] | Inr v \<Rightarrow> one_error (AirportForm_clean_position d v))"

definition AirportForm_post_clean ::
  "(int \<Rightarrow> bool) \<Rightarrow> db
   \<Rightarrow> (msg list + string) \<times> (msg list + string) \<times> (msg list + int)
   \<Rightarrow> airport_instance is_valid" where
  "AirportForm_post_clean rng d cleaned =
     (case cleaned of (code_r, name_r, position_r) \<Rightarrow>
        (let errs = field_error_list ''code'' code_r @ field_error_list ''name'' name_r
                    @ field_error_list ''position'' position_r;
             instance = \<lparr>inst_code = (case code_r of Inr c \<Rightarrow> c | Inl _ \<Rightarrow> []),
                         inst_name = (case name_r of Inr c \<Rightarrow> c | Inl _ \<Rightarrow> []),
                         inst_position = sum_option position_r\<rparr>;
             (instance', r) = Airport_full_clean rng d (map fst errs) False instance;
             validate_unique = (\<lambda>errs2.
               let errs3 = errs2 @ Airport_validate_unique d (map fst errs2) instance'
               in if errs3 = [] then Is_valid instance' else Not_valid errs3)
         in case r of
              Inr _ \<Rightarrow> validate_unique errs
            | Inl (ValidationError e) \<Rightarrow> validate_unique (errs @ e)
            | Inl x \<Rightarrow> Raise x))"

definition AirportForm_full_clean ::
  "(int \<Rightarrow> bool) \<Rightarrow> db \<Rightarrow> airport_post \<Rightarrow> airport_instance is_valid" where
  "AirportForm_full_clean rng d p = AirportForm_post_clean rng d (AirportForm_clean_fields d p)"

text \<open>
  \<^verbatim>\<open>Airport.save\<close>: \<^verbatim>\<open>full_clean\<close> with nothing excluded, then the row is inserted. The
  database refuses a null position, which \<^verbatim>\<open>full_clean\<close> has refused before.
\<close>

datatype db_error = IntegrityError

definition Airport_save ::
  "(int \<Rightarrow> bool) \<Rightarrow> db \<Rightarrow> airport_instance \<Rightarrow> db \<times> (exn + db_error + airport)" where
  "Airport_save rng d self0 =
     (case Airport_full_clean rng d [] True self0 of
        (self, Inl e) \<Rightarrow> (d, Inl e)
      | (self, Inr _) \<Rightarrow>
          (case inst_position self of
             None \<Rightarrow> (d, Inr (Inl IntegrityError))
           | Some p \<Rightarrow>
               (let a = \<lparr>code = inst_code self, name = inst_name self, position = p\<rparr>
                in (d\<lparr>airports := airports d @ [a]\<rparr>, Inr (Inr a)))))"

text \<open>
  What a view answers: a redirect or a rendered template, with the flash message it
  has queued. Only the two messages that end in \<open>successfully\<close> are queued with
  \<^verbatim>\<open>messages.success\<close>, the others with \<^verbatim>\<open>messages.error\<close>.
\<close>

datatype flash =
  Added_successfully
  | Deleted_successfully
  | Please_correct_the_errors
  | Error_adding "exn + db_error"
  | Cannot_delete_has_routes nat

datatype response = Redirect string flash | Render string flash errors

text \<open>
  \<^verbatim>\<open>AddAirportView.post\<close>. \<^verbatim>\<open>form.is_valid()\<close> stands outside the \<^verbatim>\<open>try\<close>: an exception
  of it leaves the view. Inside, an exception rolls the transaction back and becomes
  an error message.
\<close>

definition AddAirportView_post ::
  "(int \<Rightarrow> bool) \<Rightarrow> db \<Rightarrow> airport_post \<Rightarrow> db \<times> (exn + response)" where
  "AddAirportView_post rng d p =
     (case AirportForm_full_clean rng d p of
        Raise e \<Rightarrow> (d, Inl e)
      | Not_valid errs \<Rightarrow>
          (d, Inr (Render ''routes/add_airport.html'' Please_correct_the_errors errs))
      | Is_valid instance \<Rightarrow>
          (case Airport_save rng d instance of
             (d', Inr (Inr airport)) \<Rightarrow> (d', Inr (Redirect ''routes:add_airport'' Added_successfully))
           | (d', Inl e) \<Rightarrow> (d, Inr (Render ''routes/add_airport.html'' (Error_adding (Inl e)) []))
           | (d', Inr (Inl e)) \<Rightarrow>
               (d, Inr (Render ''routes/add_airport.html'' (Error_adding (Inr e)) []))))"

section \<open>Route registration\<close>

record route_post =
  post_source :: string
  post_destination :: string
  post_distance :: int_input

text \<open>
  A \<^verbatim>\<open>Route\<close> object before it is stored: a field the form did not clean is not set.
\<close>

record route_instance =
  inst_source :: "airport option"
  inst_destination :: "airport option"
  inst_distance :: "int option"

text \<open>
  \<^verbatim>\<open>AirportRouteForm.clean\<close>. Two model objects are equal when their primary keys are;
  the form's instance is new, so \<^verbatim>\<open>not self.instance.pk\<close> holds.
\<close>

definition AirportRouteForm_clean :: "db \<Rightarrow> airport option \<Rightarrow> airport option \<Rightarrow> msg + unit" where
  "AirportRouteForm_clean d src dst =
     (case (src, dst) of
        (Some s, Some t) \<Rightarrow>
          if code s = code t then Inl SameAirports
          else if list_ex (\<lambda>r. source r = code s \<and> destination r = code t) (Route_objects d)
          then Inl (RouteExists (code s) (code t))
          else Inr ()
      | _ \<Rightarrow> Inr ())"

text \<open>
  \<^verbatim>\<open>Route.clean\<close>. Reading a foreign key that is not set raises
  \<^verbatim>\<open>RelatedObjectDoesNotExist\<close>, and \<^verbatim>\<open>None <= 0\<close> raises \<^verbatim>\<open>TypeError\<close>.
\<close>

definition Route_clean :: "route_instance \<Rightarrow> exn + unit" where
  "Route_clean self =
     (case inst_source self of
        None \<Rightarrow> Inl (RelatedObjectDoesNotExist ''source'')
      | Some s \<Rightarrow>
          (case inst_destination self of
             None \<Rightarrow> Inl (RelatedObjectDoesNotExist ''destination'')
           | Some t \<Rightarrow>
               if code s = code t then Inl (ValidationError [(''destination'', SameAirports)])
               else (case inst_distance self of
                       None \<Rightarrow> Inl TypeError
                     | Some k \<Rightarrow>
                         if k \<le> 0 then Inl (ValidationError [(''distance'', DistancePositive)])
                         else Inr ())))"

text \<open>
  The framework's \<^verbatim>\<open>Model.clean_fields\<close> and \<^verbatim>\<open>Model.validate_unique\<close> for \<^verbatim>\<open>Route\<close>:
  a foreign key must be set and refer to a stored airport, the distance must be set
  and in the backend's range, and \<^verbatim>\<open>unique_together\<close> is the pair of the foreign keys.
\<close>

definition ForeignKey_model_clean :: "db \<Rightarrow> string \<Rightarrow> string list \<Rightarrow> airport option \<Rightarrow> errors" where
  "ForeignKey_model_clean d fname exclude v =
     (if fname \<in> set exclude then []
      else case v of
             None \<Rightarrow> [(fname, Null)]
           | Some a \<Rightarrow> if list_ex (\<lambda>x. code x = code a) (airports d) then []
                       else [(fname, Invalid)])"

definition Route_clean_fields ::
  "(int \<Rightarrow> bool) \<Rightarrow> db \<Rightarrow> string list \<Rightarrow> route_instance \<Rightarrow> errors" where
  "Route_clean_fields rng d exclude self =
     ForeignKey_model_clean d ''source'' exclude (inst_source self)
     @ ForeignKey_model_clean d ''destination'' exclude (inst_destination self)
     @ IntegerField_model_clean rng ''distance'' exclude (inst_distance self)"

definition Route_validate_unique :: "db \<Rightarrow> string list \<Rightarrow> route_instance \<Rightarrow> errors" where
  "Route_validate_unique d exclude self =
     (case (inst_source self, inst_destination self) of
        (Some s, Some t) \<Rightarrow>
          if ''source'' \<notin> set exclude \<and> ''destination'' \<notin> set exclude
             \<and> list_ex (\<lambda>r. source r = code s \<and> destination r = code t) (routes d)
          then [(''__all__'', UniqueTogether)] else []
      | _ \<Rightarrow> [])"

definition Route_full_clean ::
  "(int \<Rightarrow> bool) \<Rightarrow> db \<Rightarrow> string list \<Rightarrow> bool \<Rightarrow> route_instance \<Rightarrow> exn + unit" where
  "Route_full_clean rng d exclude validate_unique self =
     (let errors1 = Route_clean_fields rng d exclude self;
          finish = (\<lambda>errs.
            let errs' = errs @ (if validate_unique
                                then Route_validate_unique d (exclude @ map fst errs) self
                                else [])
            in if errs' = [] then Inr () else Inl (ValidationError errs'))
      in case Route_clean self of
           Inr _ \<Rightarrow> finish errors1
         | Inl (ValidationError e) \<Rightarrow> finish (errors1 @ e)
         | Inl x \<Rightarrow> Inl x)"

text \<open>
  \<^verbatim>\<open>AirportRouteForm.is_valid()\<close>: the three fields, the form's \<^verbatim>\<open>clean\<close>, then the
  object built from the cleaned fields goes through \<^verbatim>\<open>Model.full_clean\<close>, the fields
  with an error excluded, and the uniqueness check.
\<close>

definition AirportRouteForm_full_clean ::
  "(int \<Rightarrow> bool) \<Rightarrow> db \<Rightarrow> route_post \<Rightarrow> route_instance is_valid" where
  "AirportRouteForm_full_clean rng d p =
     (let source_r = ModelChoiceField_clean d (post_source p);
          destination_r = ModelChoiceField_clean d (post_destination p);
          distance_r = IntegerField_clean (post_distance p);
          errs0 = field_errors ''source'' source_r @ field_errors ''destination'' destination_r
                  @ field_errors ''distance'' distance_r;
          errs = errs0 @ field_errors ''__all__''
                   (AirportRouteForm_clean d (sum_option source_r) (sum_option destination_r));
          instance = \<lparr>inst_source = sum_option source_r,
                      inst_destination = sum_option destination_r,
                      inst_distance = sum_option distance_r\<rparr>;
          post_clean = (\<lambda>errs2.
            let errs3 = errs2 @ Route_validate_unique d (map fst errs2) instance
            in if errs3 = [] then Is_valid instance else Not_valid errs3)
      in case Route_full_clean rng d (map fst errs0) False instance of
           Inr _ \<Rightarrow> post_clean errs
         | Inl (ValidationError e) \<Rightarrow> post_clean (errs @ e)
         | Inl x \<Rightarrow> Raise x)"

text \<open>
  \<^verbatim>\<open>Route.save\<close>: \<^verbatim>\<open>full_clean\<close> with nothing excluded, then the row is inserted with
  the next automatic key and the time of the request (\<^verbatim>\<open>auto_now_add\<close>).
\<close>

definition Route_save ::
  "(int \<Rightarrow> bool) \<Rightarrow> nat \<Rightarrow> db \<Rightarrow> route_instance \<Rightarrow> db \<times> (exn + db_error + route)" where
  "Route_save rng now d self =
     (case Route_full_clean rng d [] True self of
        Inl e \<Rightarrow> (d, Inl e)
      | Inr _ \<Rightarrow>
          (case (inst_source self, inst_destination self, inst_distance self) of
             (Some s, Some t, Some k) \<Rightarrow>
               (let r = \<lparr>pk = next_pk d, source = code s, destination = code t, distance = k,
                         created_at = now\<rparr>
                in (d\<lparr>routes := routes d @ [r], next_pk := next_pk d + 1\<rparr>, Inr (Inr r)))
           | _ \<Rightarrow> (d, Inr (Inl IntegrityError))))"

text \<open>\<^verbatim>\<open>AddRouteView.post\<close>, with \<^verbatim>\<open>form.is_valid()\<close> outside the \<^verbatim>\<open>try\<close>.\<close>

definition AddRouteView_post ::
  "(int \<Rightarrow> bool) \<Rightarrow> nat \<Rightarrow> db \<Rightarrow> route_post \<Rightarrow> db \<times> (exn + response)" where
  "AddRouteView_post rng now d p =
     (case AirportRouteForm_full_clean rng d p of
        Raise e \<Rightarrow> (d, Inl e)
      | Not_valid errs \<Rightarrow>
          (d, Inr (Render ''routes/add_route.html'' Please_correct_the_errors errs))
      | Is_valid instance \<Rightarrow>
          (case Route_save rng now d instance of
             (d', Inr (Inr route)) \<Rightarrow> (d', Inr (Redirect ''routes:add_route'' Added_successfully))
           | (d', Inl e) \<Rightarrow> (d, Inr (Render ''routes/add_route.html'' (Error_adding (Inl e)) []))
           | (d', Inr (Inl e)) \<Rightarrow>
               (d, Inr (Render ''routes/add_route.html'' (Error_adding (Inr e)) []))))"

section \<open>Deletion\<close>

text \<open>
  \<^verbatim>\<open>Model.delete\<close> of an airport: both foreign keys of \<^verbatim>\<open>Route\<close> are declared
  \<^verbatim>\<open>on_delete=models.CASCADE\<close>, so the routes that refer to the airport are deleted
  with it.
\<close>

definition Airport_delete :: "db \<Rightarrow> airport \<Rightarrow> db" where
  "Airport_delete d a =
     d\<lparr>routes := filter (\<lambda>r. source r \<noteq> code a \<and> destination r \<noteq> code a) (routes d),
       airports := filter (\<lambda>x. code x \<noteq> code a) (airports d)\<rparr>"

definition Route_delete :: "db \<Rightarrow> route \<Rightarrow> db" where
  "Route_delete d r = d\<lparr>routes := filter (\<lambda>x. pk x \<noteq> pk r) (routes d)\<rparr>"

text \<open>
  The view \<^verbatim>\<open>delete_airport\<close>: \<^verbatim>\<open>get_object_or_404\<close> raises \<^verbatim>\<open>Http404\<close> for an unknown
  code; an airport with routes is kept and an error message queued.
\<close>

definition delete_airport :: "db \<Rightarrow> string \<Rightarrow> db \<times> (exn + response)" where
  "delete_airport d c =
     (case find (\<lambda>a. code a = c) (Airport_objects d) of
        None \<Rightarrow> (d, Inl Http404)
      | Some airport \<Rightarrow>
          (let outgoing_count = length (outgoing_routes d airport);
               incoming_count = length (incoming_routes d airport);
               total_routes = outgoing_count + incoming_count
           in if total_routes > 0
              then (d, Inr (Redirect ''routes:airport_list'' (Cannot_delete_has_routes total_routes)))
              else (Airport_delete d airport,
                    Inr (Redirect ''routes:airport_list'' Deleted_successfully))))"

definition delete_route :: "db \<Rightarrow> nat \<Rightarrow> db \<times> (exn + response)" where
  "delete_route d k =
     (case find (\<lambda>r. pk r = k) (Route_objects d) of
        None \<Rightarrow> (d, Inl Http404)
      | Some route \<Rightarrow>
          (Route_delete d route, Inr (Redirect ''routes:route_list'' Deleted_successfully)))"

section \<open>Reachable states\<close>

text \<open>
  The states of the database: the empty one, and what the four writing views and the
  model's cascading delete of a stored airport make of a reachable one.
\<close>

inductive reachable :: "(int \<Rightarrow> bool) \<Rightarrow> db \<Rightarrow> bool" for rng :: "int \<Rightarrow> bool" where
  reachable_empty: "reachable rng empty_db"
| reachable_add_airport: "reachable rng d \<Longrightarrow> reachable rng (fst (AddAirportView_post rng d p))"
| reachable_add_route: "reachable rng d \<Longrightarrow> reachable rng (fst (AddRouteView_post rng now d q))"
| reachable_delete_airport: "reachable rng d \<Longrightarrow> reachable rng (fst (delete_airport d c))"
| reachable_delete_route: "reachable rng d \<Longrightarrow> reachable rng (fst (delete_route d k))"
| reachable_cascade: "reachable rng d \<Longrightarrow> a \<in> set (airports d) \<Longrightarrow> reachable rng (Airport_delete d a)"

text \<open>The constraints the claims speak of.\<close>

definition positions_unique :: "db \<Rightarrow> bool" where
  "positions_unique d = distinct (map position (airports d))"

definition codes_unique :: "db \<Rightarrow> bool" where
  "codes_unique d = distinct (map code (airports d))"

definition references_exist :: "db \<Rightarrow> bool" where
  "references_exist d =
     list_all (\<lambda>r. source r \<in> code ` set (airports d) \<and> destination r \<in> code ` set (airports d))
       (routes d)"

section \<open>The data of the repository's tests\<close>

text \<open>
  The airports and routes that \<^verbatim>\<open>routes/tests.py\<close> sets up, stored out of the order of
  their positions.
\<close>

definition JFK :: airport where
  "JFK = \<lparr>code = ''JFK'', name = ''John F. Kennedy International Airport'', position = 1\<rparr>"

definition LAX :: airport where
  "LAX = \<lparr>code = ''LAX'', name = ''Los Angeles International Airport'', position = 2\<rparr>"

definition ORD :: airport where
  "ORD = \<lparr>code = ''ORD'', name = ''Chicago O'Hare'', position = 3\<rparr>"

definition test_db :: db where
  "test_db =
     \<lparr>airports = [LAX, JFK, ORD],
      routes = [\<lparr>pk = 1, source = ''JFK'', destination = ''LAX'', distance = 360, created_at = 0\<rparr>,
                \<lparr>pk = 2, source = ''LAX'', destination = ''ORD'', distance = 500, created_at = 1\<rparr>],
      next_pk = 3\<rparr>"

definition tie_db :: db where
  "tie_db =
     \<lparr>airports = [LAX, JFK, ORD],
      routes = [\<lparr>pk = 1, source = ''ORD'', destination = ''JFK'', distance = 180, created_at = 0\<rparr>,
                \<lparr>pk = 2, source = ''LAX'', destination = ''ORD'', distance = 500, created_at = 1\<rparr>,
                \<lparr>pk = 3, source = ''JFK'', destination = ''ORD'', distance = 180, created_at = 2\<rparr>,
                \<lparr>pk = 4, source = ''JFK'', destination = ''LAX'', distance = 180, created_at = 3\<rparr>],
      next_pk = 5\<rparr>"

definition one_route_db :: db where
  "one_route_db =
     \<lparr>airports = [JFK, LAX, ORD],
      routes = [\<lparr>pk = 1, source = ''JFK'', destination = ''LAX'', distance = 360, created_at = 0\<rparr>],
      next_pk = 2\<rparr>"

section \<open>Basic facts\<close>

lemma qs_first_None: "qs_first xs = None \<longleftrightarrow> xs = []"
  by (cases xs) (simp_all add: qs_first_def)

lemma qs_first_Some: "qs_first xs = Some x \<Longrightarrow> x \<in> set xs"
  by (cases xs) (auto simp: qs_first_def)

lemma set_Airport_objects: "set (Airport_objects d) = set (airports d)"
  by (simp add: Airport_objects_def order_by_def)

lemma find_Some_mem: "find P xs = Some x \<Longrightarrow> x \<in> set xs \<and> P x"
  by (induction xs) (auto split: if_splits)


lemma SearchForm_full_clean_Inr:
  assumes "SearchForm_full_clean d p = Inr c"
  shows "ModelChoiceField_clean d (post_starting_airport p) = Inr (starting_airport c)"
    and "ChoiceField_clean (post_direction p) = Inr (direction c)"
    and "IntegerField_clean (post_n p) = Inr (n c)"
  using assms by (auto simp: SearchForm_full_clean_def Let_def split: sum.splits)


lemma IntegerField_clean_Inr:
  "IntegerField_clean v = Inr k \<longleftrightarrow> v = IntegerInput k \<and> 1 \<le> k"
  by (auto simp: IntegerField_clean_def split: int_input.splits)

lemma nth_node_search_cases:
  fixes d c
  defines "T \<equiv> (if direction c = ''left'' then position (starting_airport c) - n c
                 else position (starting_airport c) + n c)"
  shows "(case result (nth_node_search d c) of
            Some r \<Rightarrow> target_airport r \<in> set (airports d) \<and> position (target_airport r) = T
                     \<and> target_position r = T \<and> error_message (nth_node_search d c) = None
          | None \<Rightarrow> (\<forall>a\<in>set (airports d). position a \<noteq> T)
                     \<and> error_message (nth_node_search d c) = Some T)"
proof (cases "qs_first (filter (\<lambda>a. position a = T) (Airport_objects d))")
  case None
  then have "filter (\<lambda>a. position a = T) (Airport_objects d) = []"
    by (simp add: qs_first_None)
  then have "\<forall>a\<in>set (airports d). position a \<noteq> T"
    by (simp add: filter_empty_conv set_Airport_objects)
  with None show ?thesis
    by (simp add: nth_node_search_def Let_def T_def)
next
  case (Some t)
  from qs_first_Some[OF this] have "t \<in> set (airports d)" "position t = T"
    by (simp_all add: set_Airport_objects)
  with Some show ?thesis
    by (simp add: nth_node_search_def Let_def T_def)
qed


lemma positions_unique_eq:
  "positions_unique d \<Longrightarrow> a \<in> set (airports d) \<Longrightarrow> b \<in> set (airports d)
   \<Longrightarrow> position a = position b \<Longrightarrow> a = b"
  unfolding positions_unique_def by (metis distinct_map inj_onD)

section \<open>Claims about the queries\<close>


lemmas test_defs = test_db_def JFK_def LAX_def ORD_def


text \<open>
  Claim C10. A submission the search form accepts has a magnitude of at least 1, the
  integer that was posted, so the target position and the target airport differ from
  the starting ones; a posted magnitude below 1 is refused with the minimum-value
  error of the field \<^verbatim>\<open>n\<close> and the view shows no result. The query itself, given the
  magnitude 0 for a stored starting airport, would return that airport.
\<close>

theorem search_form_magnitude:
  "(SearchForm_full_clean d p = Inr c \<longrightarrow>
      1 \<le> n c \<and> post_n p = IntegerInput (n c)
      \<and> (\<forall>r. result (NthNodeSearchView_post d p) = Some r \<longrightarrow>
             target_position r \<noteq> start_position r
             \<and> target_airport r \<noteq> starting_airport c))
   \<and> (\<forall>k. post_n p = IntegerInput k \<and> k < 1 \<longrightarrow>
         (\<exists>errs. SearchForm_full_clean d p = Inl errs \<and> (''n'', MinValue) \<in> set errs
            \<and> NthNodeSearchView_post d p
                = \<lparr>form_errors = errs, result = None, error_message = None\<rparr>))
   \<and> (starting_airport c \<in> set (airports d) \<and> positions_unique d \<and> n c = 0 \<longrightarrow>
         map_option target_airport (result (nth_node_search d c)) = Some (starting_airport c))"
proof (intro conjI impI allI)
  assume v: "SearchForm_full_clean d p = Inr c"
  from SearchForm_full_clean_Inr(3)[OF v] show "1 \<le> n c" "post_n p = IntegerInput (n c)"
    by (simp_all add: IntegerField_clean_Inr)
  then have pos: "1 \<le> n c" by simp
  fix r assume r: "result (NthNodeSearchView_post d p) = Some r"
  from v have post: "NthNodeSearchView_post d p = nth_node_search d c"
    by (simp add: NthNodeSearchView_post_def)
  from r[unfolded post] have tp: "target_position r =
      (if direction c = ''left'' then position (starting_airport c) - n c
       else position (starting_airport c) + n c)" "start_position r = position (starting_airport c)"
    by (auto simp: nth_node_search_def Let_def split: option.splits)
  with pos show "target_position r \<noteq> start_position r" by auto
  from nth_node_search_cases[of d c] r[unfolded post]
  have "position (target_airport r) = target_position r" by (simp add: tp)
  with tp pos show "target_airport r \<noteq> starting_airport c"
    by (cases "direction c = ''left''") auto
next
  fix k assume k: "post_n p = IntegerInput k \<and> k < 1"
  then have "IntegerField_clean (post_n p) = Inl MinValue"
    by (simp add: IntegerField_clean_def)
  then have "SearchForm_full_clean d p =
      Inl (field_errors ''starting_airport'' (ModelChoiceField_clean d (post_starting_airport p))
           @ field_errors ''direction'' (ChoiceField_clean (post_direction p))
           @ [(''n'', MinValue)])"
    by (simp add: SearchForm_full_clean_def Let_def field_errors_def split: sum.splits)
  then obtain errs where e: "SearchForm_full_clean d p = Inl errs" "(''n'', MinValue) \<in> set errs"
    by simp
  then show "\<exists>errs. SearchForm_full_clean d p = Inl errs \<and> (''n'', MinValue) \<in> set errs
            \<and> NthNodeSearchView_post d p
                = \<lparr>form_errors = errs, result = None, error_message = None\<rparr>"
    by (simp add: NthNodeSearchView_post_def)
next
  assume a: "starting_airport c \<in> set (airports d) \<and> positions_unique d \<and> n c = 0"
  let ?T = "position (starting_airport c)"
  have T: "(if direction c = ''left'' then ?T - n c else ?T + n c) = ?T"
    using a by simp
  from nth_node_search_cases[of d c, unfolded T] a
  show "map_option target_airport (result (nth_node_search d c)) = Some (starting_airport c)"
    by (cases "result (nth_node_search d c)") (auto dest: positions_unique_eq)
qed

theorem search_form_magnitude_witness:
  "SearchForm_full_clean test_db
     \<lparr>post_starting_airport = ''JFK'', post_direction = ''right'', post_n = IntegerInput 2\<rparr>
     = Inr \<lparr>starting_airport = JFK, direction = ''right'', n = 2\<rparr>
   \<and> (1::int) \<le> n \<lparr>starting_airport = JFK, direction = ''right'', n = 2\<rparr>
   \<and> SearchForm_full_clean test_db
     \<lparr>post_starting_airport = ''JFK'', post_direction = ''right'', post_n = IntegerInput 0\<rparr>
     = Inl [(''n'', MinValue)]
   \<and> JFK \<in> set (airports test_db) \<and> positions_unique test_db
   \<and> map_option target_airport (result (nth_node_search test_db
         \<lparr>starting_airport = JFK, direction = ''right'', n = 0\<rparr>)) = Some JFK"
proof -
  have h: "SearchForm_full_clean test_db
     \<lparr>post_starting_airport = ''JFK'', post_direction = ''right'', post_n = IntegerInput 2\<rparr>
     = Inr \<lparr>starting_airport = JFK, direction = ''right'', n = 2\<rparr>"
    by code_simp
  have h0: "SearchForm_full_clean test_db
     \<lparr>post_starting_airport = ''JFK'', post_direction = ''right'', post_n = IntegerInput 0\<rparr>
     = Inl [(''n'', MinValue)]"
    by code_simp
  have u: "JFK \<in> set (airports test_db)" "positions_unique test_db"
    by (simp_all add: test_defs positions_unique_def)
  from search_form_magnitude[of test_db
      "\<lparr>post_starting_airport = ''JFK'', post_direction = ''right'', post_n = IntegerInput 2\<rparr>"
      "\<lparr>starting_airport = JFK, direction = ''right'', n = 2\<rparr>"]
    search_form_magnitude[of test_db _ "\<lparr>starting_airport = JFK, direction = ''right'', n = 0\<rparr>"]
    h h0 u
  show ?thesis by simp
qed

lemma aggregate_Max_None: "aggregate_Max xs = None \<longleftrightarrow> xs = []"
  by (cases xs) (simp_all add: aggregate_Max_def)

lemma aggregate_Max_Some:
  assumes "aggregate_Max xs = Some m"
  shows "m \<in> set xs \<and> (\<forall>x\<in>set xs. x \<le> m)"
proof (cases xs)
  case Nil
  with assms show ?thesis by (simp add: aggregate_Max_def)
next
  case (Cons x ys)
  have "fold max ys x = Max (set (x # ys))"
    by (rule Max.set_eq_fold[symmetric])
  with assms Cons have "m = Max (set xs)"
    by (simp add: aggregate_Max_def)
  then show ?thesis using Cons by (metis List.finite_set Max_ge Max_in list.distinct(1) set_empty)
qed

lemma qs_first_remdups_Some:
  "xs \<noteq> [] \<Longrightarrow> \<exists>x. qs_first (remdups xs) = Some x \<and> x \<in> set xs"
proof -
  assume "xs \<noteq> []"
  then have "remdups xs \<noteq> []" by simp
  then obtain y ys where "remdups xs = y # ys" by (cases "remdups xs") auto
  then have "qs_first (remdups xs) = Some y" "y \<in> set (remdups xs)"
    by (simp_all add: qs_first_def)
  then show ?thesis by auto
qed

text \<open>
  Claim C2. \<^verbatim>\<open>Route.get_longest_distance_airport\<close> returns \<^verbatim>\<open>(None, None)\<close> exactly when
  the routes table is empty. When it is not, and every route refers to stored airports
  (the foreign keys), it returns a distance that no route exceeds together with a stored
  airport that is the source or the destination of a route of that distance.
\<close>

theorem longest_distance_airport:
  "(get_longest_distance_airport d = (None, None) \<longleftrightarrow> routes d = [])
   \<and> (routes d \<noteq> [] \<and> references_exist d \<longrightarrow>
        (\<exists>a m. get_longest_distance_airport d = (Some a, Some m)
           \<and> (\<forall>r\<in>set (routes d). distance r \<le> m)
           \<and> a \<in> set (airports d)
           \<and> (\<exists>r\<in>set (routes d). distance r = m \<and> (source r = code a \<or> destination r = code a))))"
proof (intro conjI impI)
  show "get_longest_distance_airport d = (None, None) \<longleftrightarrow> routes d = []"
    by (cases "routes d")
       (simp_all add: get_longest_distance_airport_def Route_objects_def aggregate_Max_def Let_def)
next
  assume a: "routes d \<noteq> [] \<and> references_exist d"
  then obtain m where m: "aggregate_Max (map distance (Route_objects d)) = Some m"
    by (cases "aggregate_Max (map distance (Route_objects d))")
       (simp_all add: aggregate_Max_None Route_objects_def)
  from aggregate_Max_Some[OF m] obtain r0 where r0: "r0 \<in> set (routes d)" "distance r0 = m"
    and ub: "\<forall>r\<in>set (routes d). distance r \<le> m"
    by (auto simp: Route_objects_def)
  let ?touch = "\<lambda>a. list_ex (\<lambda>r. distance r = m) (outgoing_routes d a)
                    \<or> list_ex (\<lambda>r. distance r = m) (incoming_routes d a)"
  from a r0 obtain a0 where a0: "a0 \<in> set (airports d)" "source r0 = code a0"
    by (auto simp: references_exist_def list_all_iff)
  with r0 have "?touch a0"
    by (auto simp: list_ex_iff outgoing_routes_def)
  with a0 have "filter ?touch (Airport_objects d) \<noteq> []"
    by (auto simp: filter_empty_conv set_Airport_objects)
  from qs_first_remdups_Some[OF this] obtain a1
    where a1: "qs_first (remdups (filter ?touch (Airport_objects d))) = Some a1"
      "a1 \<in> set (airports d)" "?touch a1"
    by (auto simp: set_Airport_objects)
  from a1(3) have "\<exists>r\<in>set (routes d). distance r = m \<and> (source r = code a1 \<or> destination r = code a1)"
    by (auto simp: list_ex_iff outgoing_routes_def incoming_routes_def)
  moreover have "get_longest_distance_airport d = (Some a1, Some m)"
    using m a1(1) by (simp add: get_longest_distance_airport_def Let_def)
  ultimately show "\<exists>a m. get_longest_distance_airport d = (Some a, Some m)
           \<and> (\<forall>r\<in>set (routes d). distance r \<le> m)
           \<and> a \<in> set (airports d)
           \<and> (\<exists>r\<in>set (routes d). distance r = m \<and> (source r = code a \<or> destination r = code a))"
    using ub a1(2) by blast
qed

theorem longest_distance_airport_witness:
  "routes test_db \<noteq> [] \<and> references_exist test_db
   \<and> get_longest_distance_airport test_db = (Some LAX, Some 500)
   \<and> get_longest_distance_airport empty_db = (None, None)"
proof -
  have h: "routes test_db \<noteq> []" "references_exist test_db"
    by (simp_all add: test_defs references_exist_def)
  have v: "get_longest_distance_airport test_db = (Some LAX, Some 500)"
    by code_simp
  from longest_distance_airport[of test_db] longest_distance_airport[of empty_db] h v
  show ?thesis by (simp add: empty_db_def)
qed

lemma sort_key_Nil_iff: "sort_key f xs = [] \<longleftrightarrow> xs = []"
  by (metis length_0_conv length_sort)

lemma get_shortest_route_None: "get_shortest_route d = None \<longleftrightarrow> routes d = []"
  by (simp add: get_shortest_route_def qs_first_None order_by_def Route_objects_def
      sort_key_Nil_iff)

lemma sort_key_hd_le:
  assumes "sort_key f xs = y # ys" "x \<in> set xs"
  shows "f y \<le> f x"
proof -
  have "sorted (map f (y # ys))" using sorted_sort_key[of f xs] assms(1) by simp
  moreover have "x \<in> set (y # ys)" using assms by (metis set_sort)
  ultimately show ?thesis by auto
qed

lemma get_shortest_route_Some:
  assumes "get_shortest_route d = Some r"
  shows "r \<in> set (routes d) \<and> (\<forall>x\<in>set (routes d). distance r \<le> distance x)"
proof -
  from assms obtain ys where s: "sort_key distance (routes d) = r # ys"
    by (auto simp: get_shortest_route_def qs_first_def order_by_def Route_objects_def
        split: list.splits)
  then have "r \<in> set (sort_key distance (routes d))" by simp
  then have "r \<in> set (routes d)" by simp
  with sort_key_hd_le[OF s] show ?thesis by blast
qed

text \<open>
  Claim C3. \<^verbatim>\<open>Route.get_shortest_route\<close> returns \<^verbatim>\<open>None\<close> exactly when the routes table
  is empty; a route it returns is a stored route whose distance no route undercuts, and
  the view then shows it, its distance, and exactly the routes of that distance (each
  as often as it is stored), ordered by source code and, for equal source codes, by
  destination code. With no route the view shows none.
\<close>

theorem shortest_route:
  "(get_shortest_route d = None \<longleftrightarrow> routes d = [])
   \<and> (\<forall>r. get_shortest_route d = Some r \<longrightarrow>
         r \<in> set (routes d) \<and> (\<forall>x\<in>set (routes d). distance r \<le> distance x)
         \<and> shortest_route (ShortestRouteView_get_context_data d) = Some r
         \<and> shortest_distance (ShortestRouteView_get_context_data d) = Some (distance r)
         \<and> mset (shortest_routes (ShortestRouteView_get_context_data d))
             = mset (filter (\<lambda>x. distance x = distance r) (routes d))
         \<and> sorted_wrt (\<lambda>x y. source x < source y
                                \<or> source x = source y \<and> destination x \<le> destination y)
               (shortest_routes (ShortestRouteView_get_context_data d)))
   \<and> (routes d = [] \<longrightarrow>
         ShortestRouteView_get_context_data d
           = \<lparr>shortest_route = None, shortest_distance = None, shortest_routes = []\<rparr>)"
proof (intro conjI allI impI)
  show "get_shortest_route d = None \<longleftrightarrow> routes d = []" by (rule get_shortest_route_None)
next
  fix r assume r: "get_shortest_route d = Some r"
  from get_shortest_route_Some[OF r]
  show "r \<in> set (routes d)" "\<forall>x\<in>set (routes d). distance r \<le> distance x" by simp_all
  from r show "shortest_route (ShortestRouteView_get_context_data d) = Some r"
    "shortest_distance (ShortestRouteView_get_context_data d) = Some (distance r)"
    "mset (shortest_routes (ShortestRouteView_get_context_data d))
       = mset (filter (\<lambda>x. distance x = distance r) (routes d))"
    by (simp_all add: ShortestRouteView_get_context_data_def order_by_def Route_objects_def)
  have "sorted (map (\<lambda>x. (source x, destination x))
                    (shortest_routes (ShortestRouteView_get_context_data d)))"
    using r by (simp add: ShortestRouteView_get_context_data_def order_by_def Route_objects_def)
  then show "sorted_wrt (\<lambda>x y. source x < source y
                                \<or> source x = source y \<and> destination x \<le> destination y)
               (shortest_routes (ShortestRouteView_get_context_data d))"
    unfolding sorted_map by (rule sorted_wrt_mono_rel[rotated]) (auto simp: less_eq_prod_simp)
next
  assume "routes d = []"
  then have "get_shortest_route d = None" by (simp add: get_shortest_route_None)
  then show "ShortestRouteView_get_context_data d
           = \<lparr>shortest_route = None, shortest_distance = None, shortest_routes = []\<rparr>"
    by (simp add: ShortestRouteView_get_context_data_def)
qed


theorem shortest_route_witness:
  "get_shortest_route tie_db
     = Some \<lparr>pk = 1, source = ''ORD'', destination = ''JFK'', distance = 180, created_at = 0\<rparr>
   \<and> shortest_routes (ShortestRouteView_get_context_data tie_db)
     = [\<lparr>pk = 4, source = ''JFK'', destination = ''LAX'', distance = 180, created_at = 3\<rparr>,
        \<lparr>pk = 3, source = ''JFK'', destination = ''ORD'', distance = 180, created_at = 2\<rparr>,
        \<lparr>pk = 1, source = ''ORD'', destination = ''JFK'', distance = 180, created_at = 0\<rparr>]
   \<and> routes empty_db = []
   \<and> shortest_routes (ShortestRouteView_get_context_data empty_db) = []"
proof -
  have h: "get_shortest_route tie_db
     = Some \<lparr>pk = 1, source = ''ORD'', destination = ''JFK'', distance = 180, created_at = 0\<rparr>"
    by code_simp
  have v: "shortest_routes (ShortestRouteView_get_context_data tie_db)
     = [\<lparr>pk = 4, source = ''JFK'', destination = ''LAX'', distance = 180, created_at = 3\<rparr>,
        \<lparr>pk = 3, source = ''JFK'', destination = ''ORD'', distance = 180, created_at = 2\<rparr>,
        \<lparr>pk = 1, source = ''ORD'', destination = ''JFK'', distance = 180, created_at = 0\<rparr>]"
    by code_simp
  have e: "routes empty_db = []" by (simp add: empty_db_def)
  from shortest_route[of tie_db] shortest_route[of empty_db] h v e
  show ?thesis by simp
qed

section \<open>The writing operations\<close>

lemma Airport_clean_Inr:
  assumes "Airport_clean d i = (i', Inr u)"
  shows "i' = (if inst_code i \<noteq> [] then i\<lparr>inst_code := upper (inst_code i)\<rparr> else i)"
  using assms by (auto simp: Airport_clean_def Let_def split: if_splits option.splits)

lemma Airport_clean_fst:
  "fst (Airport_clean d i) = (if inst_code i \<noteq> [] then i\<lparr>inst_code := upper (inst_code i)\<rparr> else i)"
  by (auto simp: Airport_clean_def Let_def split: if_splits option.splits)

lemma Airport_full_clean_Inr:
  assumes "Airport_full_clean rng d ex vu i = (i', Inr u)"
  shows "Airport_clean_fields rng ex i = []"
    and "i' = fst (Airport_clean d i)"
    and "vu \<Longrightarrow> Airport_validate_unique d ex i' = []"
  using assms
  by (auto simp: Airport_full_clean_def Let_def split: prod.splits sum.splits exn.splits if_splits)

lemma Airport_full_clean_fst:
  "fst (Airport_full_clean rng d ex vu i) = fst (Airport_clean d i)"
  by (auto simp: Airport_full_clean_def Let_def split: prod.splits sum.splits exn.splits)

lemma Airport_validate_unique_Nil:
  assumes "Airport_validate_unique d [] i = []"
  shows "inst_code i \<notin> code ` set (airports d)"
    and "inst_position i = Some p \<Longrightarrow> p \<notin> position ` set (airports d)"
  using assms
  by (auto simp: Airport_validate_unique_def list_ex_iff split: if_splits option.splits)

lemma Airport_save_cases:
  assumes "Airport_save rng d i = (d', r)"
  shows "(\<exists>a. r = Inr (Inr a) \<and> d' = d\<lparr>airports := airports d @ [a]\<rparr>
             \<and> code a \<notin> code ` set (airports d) \<and> position a \<notin> position ` set (airports d)
             \<and> code a = inst_code (fst (Airport_clean d i))
             \<and> name a = inst_name i \<and> inst_position i = Some (position a))
         \<or> (d' = d \<and> (\<forall>a. r \<noteq> Inr (Inr a)))"
proof (cases "Airport_full_clean rng d [] True i")
  case (Pair i' res)
  show ?thesis
  proof (cases res)
    case (Inl e)
    with Pair assms show ?thesis by (auto simp: Airport_save_def)
  next
    case (Inr u)
    note fc = Airport_full_clean_Inr[OF Pair[unfolded Inr]]
    have i': "inst_name i' = inst_name i" "inst_position i' = inst_position i"
      by (simp_all add: fc(2) Airport_clean_fst)
    show ?thesis
    proof (cases "inst_position i'")
      case None
      with Pair Inr assms show ?thesis by (auto simp: Airport_save_def)
    next
      case (Some p)
      from Airport_validate_unique_Nil[OF fc(3)] Some
      have "inst_code i' \<notin> code ` set (airports d)" "p \<notin> position ` set (airports d)"
        by simp_all
      with Pair Inr Some assms i' fc(2) show ?thesis
        by (auto simp: Airport_save_def Let_def)
    qed
  qed
qed

lemma AddAirportView_post_cases:
  "(\<exists>a. AddAirportView_post rng d p
          = (d\<lparr>airports := airports d @ [a]\<rparr>, Inr (Redirect ''routes:add_airport'' Added_successfully))
        \<and> code a \<notin> code ` set (airports d) \<and> position a \<notin> position ` set (airports d))
   \<or> (fst (AddAirportView_post rng d p) = d
       \<and> snd (AddAirportView_post rng d p) \<noteq> Inr (Redirect ''routes:add_airport'' Added_successfully))"
proof (cases "AirportForm_full_clean rng d p")
  case (Is_valid i)
  obtain d' r where s: "Airport_save rng d i = (d', r)" by (cases "Airport_save rng d i")
  from Airport_save_cases[OF s] show ?thesis
    using Is_valid s by (auto simp: AddAirportView_post_def split: sum.splits)
qed (simp_all add: AddAirportView_post_def)

lemma Route_clean_not_empty: "Route_clean i \<noteq> Inl (ValidationError [])"
  by (simp add: Route_clean_def split: option.splits)

lemma Route_full_clean_Inr:
  assumes "Route_full_clean rng d ex vu i = Inr u"
  shows "Route_clean_fields rng d ex i = []"
    and "Route_clean i = Inr ()"
    and "vu \<Longrightarrow> Route_validate_unique d ex i = []"
  using assms Route_clean_not_empty[of i]
  by (auto simp: Route_full_clean_def Let_def split: sum.splits exn.splits if_splits)

lemma list_ex_code_image: "list_ex (\<lambda>x. code x = c) xs \<longleftrightarrow> c \<in> code ` set xs"
  by (auto simp: list_ex_iff)

lemma Route_clean_Inr:
  assumes "Route_clean i = Inr u"
  shows "\<exists>s t k. inst_source i = Some s \<and> inst_destination i = Some t \<and> inst_distance i = Some k
           \<and> code s \<noteq> code t \<and> 0 < k"
  using assms by (auto simp: Route_clean_def split: option.splits if_splits)

lemma Route_save_cases:
  assumes "Route_save rng now d i = (d', r)"
  shows "(\<exists>s t k. inst_source i = Some s \<and> inst_destination i = Some t \<and> inst_distance i = Some k
             \<and> r = Inr (Inr \<lparr>pk = next_pk d, source = code s, destination = code t, distance = k,
                              created_at = now\<rparr>)
             \<and> d' = d\<lparr>routes := routes d @ [\<lparr>pk = next_pk d, source = code s, destination = code t,
                                              distance = k, created_at = now\<rparr>],
                      next_pk := next_pk d + 1\<rparr>
             \<and> code s \<in> code ` set (airports d) \<and> code t \<in> code ` set (airports d)
             \<and> code s \<noteq> code t \<and> 0 < k \<and> rng k
             \<and> (code s, code t) \<notin> (\<lambda>x. (source x, destination x)) ` set (routes d))
         \<or> (d' = d \<and> (\<forall>x. r \<noteq> Inr (Inr x)))"
proof (cases "Route_full_clean rng d [] True i")
  case (Inl e)
  with assms show ?thesis by (auto simp: Route_save_def)
next
  case (Inr u)
  note fc = Route_full_clean_Inr[OF Inr]
  from Route_clean_Inr[OF fc(2)] obtain s t k where
    i: "inst_source i = Some s" "inst_destination i = Some t" "inst_distance i = Some k"
    and ok: "code s \<noteq> code t" "0 < k" by blast
  from fc(1) i have "code s \<in> code ` set (airports d)" "code t \<in> code ` set (airports d)" "rng k"
    by (simp_all add: Route_clean_fields_def ForeignKey_model_clean_def
        IntegerField_model_clean_def list_ex_code_image split: if_splits)
  moreover from fc(3) i have "(code s, code t) \<notin> (\<lambda>x. (source x, destination x)) ` set (routes d)"
    by (auto simp: Route_validate_unique_def list_ex_iff split: if_splits)
  ultimately show ?thesis using assms Inr i ok
    by (auto simp: Route_save_def Let_def)
qed

lemma AddRouteView_post_cases:
  "(\<exists>r. AddRouteView_post rng now d q
          = (d\<lparr>routes := routes d @ [r], next_pk := next_pk d + 1\<rparr>,
             Inr (Redirect ''routes:add_route'' Added_successfully))
        \<and> pk r = next_pk d
        \<and> source r \<in> code ` set (airports d) \<and> destination r \<in> code ` set (airports d)
        \<and> source r \<noteq> destination r \<and> 0 < distance r
        \<and> (source r, destination r) \<notin> (\<lambda>x. (source x, destination x)) ` set (routes d))
   \<or> (fst (AddRouteView_post rng now d q) = d
       \<and> snd (AddRouteView_post rng now d q) \<noteq> Inr (Redirect ''routes:add_route'' Added_successfully))"
proof (cases "AirportRouteForm_full_clean rng d q")
  case (Is_valid i)
  obtain d' r where s: "Route_save rng now d i = (d', r)" by (cases "Route_save rng now d i")
  from Route_save_cases[OF s] show ?thesis
    using Is_valid s by (auto simp: AddRouteView_post_def split: sum.splits)
qed (simp_all add: AddRouteView_post_def)

lemma delete_airport_cases:
  "fst (delete_airport d c) = d
   \<or> (\<exists>a\<in>set (airports d). code a = c \<and> fst (delete_airport d c) = Airport_delete d a)"
  by (auto simp: delete_airport_def Let_def set_Airport_objects
      split: option.splits dest!: find_Some_mem)

lemma delete_route_cases:
  "fst (delete_route d k) = d \<or> (\<exists>r\<in>set (routes d). fst (delete_route d k) = Route_delete d r)"
  by (auto simp: delete_route_def Route_objects_def split: option.splits dest!: find_Some_mem)


section \<open>Invariants of the reachable states\<close>

lemma positions_unique_Airport_delete: "positions_unique d \<Longrightarrow> positions_unique (Airport_delete d a)"
  by (simp add: positions_unique_def Airport_delete_def distinct_map_filter)

lemma codes_unique_Airport_delete: "codes_unique d \<Longrightarrow> codes_unique (Airport_delete d a)"
  by (simp add: codes_unique_def Airport_delete_def distinct_map_filter)

lemma references_exist_Airport_delete:
  "references_exist d \<Longrightarrow> references_exist (Airport_delete d a)"
  by (auto simp: references_exist_def Airport_delete_def list_all_iff)

lemma references_exist_Route_delete:
  "references_exist d \<Longrightarrow> references_exist (Route_delete d r)"
  by (auto simp: references_exist_def Route_delete_def list_all_iff)

lemma positions_unique_AddAirportView_post:
  assumes "positions_unique d"
  shows "positions_unique (fst (AddAirportView_post rng d p))"
  using AddAirportView_post_cases[of rng d p] assms
  by (auto simp: positions_unique_def)

lemma codes_unique_AddAirportView_post:
  assumes "codes_unique d"
  shows "codes_unique (fst (AddAirportView_post rng d p))"
  using AddAirportView_post_cases[of rng d p] assms
  by (auto simp: codes_unique_def)

lemma references_exist_AddAirportView_post:
  assumes "references_exist d"
  shows "references_exist (fst (AddAirportView_post rng d p))"
  using AddAirportView_post_cases[of rng d p] assms
  by (auto simp: references_exist_def list_all_iff)

lemma airports_AddRouteView_post: "airports (fst (AddRouteView_post rng now d q)) = airports d"
  using AddRouteView_post_cases[of rng now d q] by auto

lemma references_exist_AddRouteView_post:
  assumes "references_exist d"
  shows "references_exist (fst (AddRouteView_post rng now d q))"
  using AddRouteView_post_cases[of rng now d q] assms
  by (auto simp: references_exist_def list_all_iff)

lemma airports_Route_delete: "airports (Route_delete d r) = airports d"
  by (simp add: Route_delete_def)

lemma positions_unique_step:
  assumes "positions_unique d"
  shows "positions_unique (fst (AddAirportView_post rng d p))"
    and "positions_unique (fst (AddRouteView_post rng now d q))"
    and "positions_unique (fst (delete_airport d c))"
    and "positions_unique (fst (delete_route d k))"
    and "positions_unique (Airport_delete d a)"
proof -
  show "positions_unique (fst (AddAirportView_post rng d p))"
    by (rule positions_unique_AddAirportView_post[OF assms])
  show "positions_unique (fst (AddRouteView_post rng now d q))"
    using assms by (simp add: positions_unique_def airports_AddRouteView_post)
  show "positions_unique (fst (delete_airport d c))"
    using delete_airport_cases[of d c] assms positions_unique_Airport_delete by auto
  show "positions_unique (fst (delete_route d k))"
    using delete_route_cases[of d k] assms
    by (auto simp: positions_unique_def airports_Route_delete)
  show "positions_unique (Airport_delete d a)"
    by (rule positions_unique_Airport_delete[OF assms])
qed

lemma codes_unique_step:
  assumes "codes_unique d"
  shows "codes_unique (fst (AddAirportView_post rng d p))"
    and "codes_unique (fst (AddRouteView_post rng now d q))"
    and "codes_unique (fst (delete_airport d c))"
    and "codes_unique (fst (delete_route d k))"
proof -
  show "codes_unique (fst (AddAirportView_post rng d p))"
    by (rule codes_unique_AddAirportView_post[OF assms])
  show "codes_unique (fst (AddRouteView_post rng now d q))"
    using assms by (simp add: codes_unique_def airports_AddRouteView_post)
  show "codes_unique (fst (delete_airport d c))"
    using delete_airport_cases[of d c] assms codes_unique_Airport_delete by auto
  show "codes_unique (fst (delete_route d k))"
    using delete_route_cases[of d k] assms
    by (auto simp: codes_unique_def airports_Route_delete)
qed

lemma references_exist_step:
  assumes "references_exist d"
  shows "references_exist (fst (AddAirportView_post rng d p))"
    and "references_exist (fst (AddRouteView_post rng now d q))"
    and "references_exist (fst (delete_airport d c))"
    and "references_exist (fst (delete_route d k))"
proof -
  show "references_exist (fst (AddAirportView_post rng d p))"
    by (rule references_exist_AddAirportView_post[OF assms])
  show "references_exist (fst (AddRouteView_post rng now d q))"
    by (rule references_exist_AddRouteView_post[OF assms])
  show "references_exist (fst (delete_airport d c))"
    using delete_airport_cases[of d c] assms references_exist_Airport_delete by auto
  show "references_exist (fst (delete_route d k))"
    using delete_route_cases[of d k] assms references_exist_Route_delete by auto
qed

lemma reachable_positions_unique: "reachable rng d \<Longrightarrow> positions_unique d"
proof (induction rule: reachable.induct)
  case reachable_empty
  show ?case by (simp add: positions_unique_def empty_db_def)
qed (simp_all add: positions_unique_step)

lemma reachable_codes_unique: "reachable rng d \<Longrightarrow> codes_unique d"
proof (induction rule: reachable.induct)
  case reachable_empty
  show ?case by (simp add: codes_unique_def empty_db_def)
qed (simp_all add: codes_unique_step codes_unique_Airport_delete)

lemma reachable_references_exist: "reachable rng d \<Longrightarrow> references_exist d"
proof (induction rule: reachable.induct)
  case reachable_empty
  show ?case by (simp add: references_exist_def empty_db_def)
qed (simp_all add: references_exist_step references_exist_Airport_delete)


section \<open>Claims about deletion and the invariants\<close>

lemma find_code_unique:
  assumes "a \<in> set xs" "distinct (map code ys)" "set xs = set ys"
  shows "find (\<lambda>x. code x = code a) xs = Some a"
proof (cases "find (\<lambda>x. code x = code a) xs")
  case None
  with assms(1) show ?thesis by (auto simp: find_None_iff)
next
  case (Some b)
  from find_Some_mem[OF Some] have "b \<in> set ys" "code b = code a" using assms(3) by auto
  moreover have "a \<in> set ys" using assms by simp
  ultimately have "b = a" using assms(2) by (metis distinct_map inj_onD)
  with Some show ?thesis by simp
qed

lemma filter_code_remove1:
  assumes "distinct (map code xs)" "a \<in> set xs"
  shows "filter (\<lambda>x. code x \<noteq> code a) xs = remove1 a xs"
  using assms
proof (induction xs)
  case Nil
  then show ?case by simp
next
  case (Cons x xs)
  show ?case
  proof (cases "x = a")
    case True
    with Cons.prems have "code a \<notin> code ` set xs" by simp
    then have "\<forall>y\<in>set xs. code y \<noteq> code a" by (metis imageI)
    then have "filter (\<lambda>x. code x \<noteq> code a) xs = xs" by (simp add: filter_id_conv)
    with True show ?thesis by simp
  next
    case False
    with Cons.prems have "a \<in> set xs" "code x \<noteq> code a" by auto
    with Cons show ?thesis using False by simp
  qed
qed

text \<open>
  Claim C4. For a stored airport \<open>A\<close>, codes being the primary key: when a route has
  \<open>A\<close> as source or destination, \<^verbatim>\<open>delete_airport\<close> leaves the database as it is and
  queues the error message that counts the routes; when no route has, it answers with
  the success message, the airports table loses \<open>A\<close> and nothing else, and the routes
  table is as before.
\<close>

theorem delete_airport_guard:
  assumes "a \<in> set (airports d)" and "codes_unique d"
  shows "((\<exists>r\<in>set (routes d). source r = code a \<or> destination r = code a) \<longrightarrow>
            fst (delete_airport d (code a)) = d
            \<and> (\<exists>k. 0 < k \<and> snd (delete_airport d (code a))
                        = Inr (Redirect ''routes:airport_list'' (Cannot_delete_has_routes k))))
         \<and> (\<not> (\<exists>r\<in>set (routes d). source r = code a \<or> destination r = code a) \<longrightarrow>
              snd (delete_airport d (code a))
                = Inr (Redirect ''routes:airport_list'' Deleted_successfully)
              \<and> airports (fst (delete_airport d (code a))) = remove1 a (airports d)
              \<and> set (airports (fst (delete_airport d (code a)))) = set (airports d) - {a}
              \<and> routes (fst (delete_airport d (code a))) = routes d
              \<and> next_pk (fst (delete_airport d (code a))) = next_pk d)"
proof -
  have found: "find (\<lambda>x. code x = code a) (Airport_objects d) = Some a"
    using assms by (intro find_code_unique[where ys = "airports d"])
      (simp_all add: set_Airport_objects codes_unique_def)
  let ?total = "length (outgoing_routes d a) + length (incoming_routes d a)"
  have total: "0 < ?total \<longleftrightarrow> (\<exists>r\<in>set (routes d). source r = code a \<or> destination r = code a)"
    by (auto simp: outgoing_routes_def incoming_routes_def filter_empty_conv)
  have dist: "distinct (airports d)"
    using assms(2) by (simp add: codes_unique_def distinct_map)
  show ?thesis
  proof (intro conjI impI)
    assume r: "\<exists>r\<in>set (routes d). source r = code a \<or> destination r = code a"
    with total have "0 < ?total" by simp
    then show "fst (delete_airport d (code a)) = d"
      "\<exists>k. 0 < k \<and> snd (delete_airport d (code a))
                        = Inr (Redirect ''routes:airport_list'' (Cannot_delete_has_routes k))"
      using found by (simp_all add: delete_airport_def Let_def)
  next
    assume r: "\<not> (\<exists>r\<in>set (routes d). source r = code a \<or> destination r = code a)"
    with total have z: "\<not> 0 < ?total" by simp
    then have del: "delete_airport d (code a)
        = (Airport_delete d a, Inr (Redirect ''routes:airport_list'' Deleted_successfully))"
      using found by (simp add: delete_airport_def Let_def)
    then show "snd (delete_airport d (code a))
                = Inr (Redirect ''routes:airport_list'' Deleted_successfully)" by simp
    show a: "airports (fst (delete_airport d (code a))) = remove1 a (airports d)"
      using assms by (simp add: del Airport_delete_def filter_code_remove1 codes_unique_def)
    show "set (airports (fst (delete_airport d (code a)))) = set (airports d) - {a}"
      unfolding a using dist by simp
    from r have "filter (\<lambda>r. source r \<noteq> code a \<and> destination r \<noteq> code a) (routes d) = routes d"
      by (auto simp: filter_id_conv)
    then show "routes (fst (delete_airport d (code a))) = routes d"
      by (simp add: del Airport_delete_def)
    show "next_pk (fst (delete_airport d (code a))) = next_pk d"
      by (simp add: del Airport_delete_def)
  qed
qed

theorem delete_airport_guard_witness:
  "JFK \<in> set (airports one_route_db) \<and> ORD \<in> set (airports one_route_db)
   \<and> codes_unique one_route_db
   \<and> delete_airport one_route_db ''JFK''
       = (one_route_db, Inr (Redirect ''routes:airport_list'' (Cannot_delete_has_routes 1)))
   \<and> delete_airport one_route_db ''ORD''
       = (one_route_db\<lparr>airports := [JFK, LAX]\<rparr>,
          Inr (Redirect ''routes:airport_list'' Deleted_successfully))"
proof -
  have h: "JFK \<in> set (airports one_route_db)" "ORD \<in> set (airports one_route_db)"
    "codes_unique one_route_db"
    by (simp_all add: one_route_db_def JFK_def LAX_def ORD_def codes_unique_def)
  have v: "delete_airport one_route_db ''JFK''
       = (one_route_db, Inr (Redirect ''routes:airport_list'' (Cannot_delete_has_routes 1)))"
    "delete_airport one_route_db ''ORD''
       = (one_route_db\<lparr>airports := [JFK, LAX]\<rparr>,
          Inr (Redirect ''routes:airport_list'' Deleted_successfully))"
    by code_simp+
  from delete_airport_guard[OF h(1) h(3)] delete_airport_guard[OF h(2) h(3)] h v
  show ?thesis by simp
qed

text \<open>
  Claim C7. In every reachable state no two airports share a position; each of the
  writing views and the model's cascading delete keeps it so; and a registration whose
  position is the position of a stored airport leaves the database as it is and shows
  the form again with an error on the field \<^verbatim>\<open>position\<close>.
\<close>

theorem position_unique_invariant:
  "(reachable rng d \<longrightarrow> positions_unique d)
   \<and> (positions_unique d \<longrightarrow>
        positions_unique (fst (AddAirportView_post rng d p))
        \<and> positions_unique (fst (AddRouteView_post rng now d q))
        \<and> positions_unique (fst (delete_airport d c))
        \<and> positions_unique (fst (delete_route d k))
        \<and> positions_unique (Airport_delete d a))
   \<and> (post_position p = IntegerInput i \<and> i \<in> position ` set (airports d) \<longrightarrow>
        fst (AddAirportView_post rng d p) = d
        \<and> (\<exists>errs m. snd (AddAirportView_post rng d p)
                       = Inr (Render ''routes/add_airport.html'' Please_correct_the_errors errs)
                     \<and> (''position'', m) \<in> set errs))"
proof (intro conjI impI)
  assume "reachable rng d"
  then show "positions_unique d" by (rule reachable_positions_unique)
next
  assume u: "positions_unique d"
  from positions_unique_step[OF u]
  show "positions_unique (fst (AddAirportView_post rng d p))"
    "positions_unique (fst (AddRouteView_post rng now d q))"
    "positions_unique (fst (delete_airport d c))"
    "positions_unique (fst (delete_route d k))"
    "positions_unique (Airport_delete d a)"
    by simp_all
next
  assume dup: "post_position p = IntegerInput i \<and> i \<in> position ` set (airports d)"
  obtain code_r name_r position_r
    where cf: "AirportForm_clean_fields d p = (code_r, name_r, position_r)"
    by (cases "AirportForm_clean_fields d p")
  have "\<exists>m. position_r = Inl [m]"
  proof (cases "i < 1")
    case True
    with dup cf show ?thesis
      by (auto simp: AirportForm_clean_fields_def IntegerField_clean_def)
  next
    case False
    from dup have "filter (\<lambda>a. position a = i) (Airport_objects d) \<noteq> []"
      by (auto simp: filter_empty_conv set_Airport_objects)
    then have "qs_first (filter (\<lambda>a. position a = i) (Airport_objects d)) \<noteq> None"
      by (simp add: qs_first_None)
    with False dup cf show ?thesis
      by (auto simp: AirportForm_clean_fields_def IntegerField_clean_def
          AirportForm_clean_position_def one_error_def split: option.splits)
  qed
  then obtain m where m: "position_r = Inl [m]" by blast
  have "\<exists>errs. AirportForm_full_clean rng d p = Not_valid errs \<and> (''position'', m) \<in> set errs"
    unfolding AirportForm_full_clean_def cf AirportForm_post_clean_def m
    by (auto simp: Let_def field_error_list_def Airport_full_clean_def Airport_clean_def
        split: prod.splits sum.splits exn.splits if_splits option.splits)
  then obtain errs where e: "AirportForm_full_clean rng d p = Not_valid errs"
    "(''position'', m) \<in> set errs" by blast
  then show "fst (AddAirportView_post rng d p) = d"
    "\<exists>errs m. snd (AddAirportView_post rng d p)
                       = Inr (Render ''routes/add_airport.html'' Please_correct_the_errors errs)
                     \<and> (''position'', m) \<in> set errs"
    by (auto simp: AddAirportView_post_def)
qed


theorem position_unique_invariant_witness:
  "reachable (\<lambda>_. True) (fst (AddAirportView_post (\<lambda>_. True) empty_db
       \<lparr>post_code = ''jfk'', post_name = ''Kennedy'', post_position = IntegerInput 1\<rparr>))
   \<and> fst (AddAirportView_post (\<lambda>_. True) empty_db
       \<lparr>post_code = ''jfk'', post_name = ''Kennedy'', post_position = IntegerInput 1\<rparr>)
     = \<lparr>airports = [\<lparr>code = ''JFK'', name = ''Kennedy'', position = 1\<rparr>], routes = [], next_pk = 1\<rparr>
   \<and> positions_unique test_db
   \<and> 2 \<in> position ` set (airports test_db)
   \<and> AddAirportView_post (\<lambda>_. True) test_db
       \<lparr>post_code = ''SFO'', post_name = ''San Francisco'', post_position = IntegerInput 2\<rparr>
     = (test_db, Inr (Render ''routes/add_airport.html'' Please_correct_the_errors
          [(''position'', PositionTaken 2 ''LAX'' ''Los Angeles International Airport'')]))"
proof -
  let ?p = "\<lparr>post_code = ''jfk'', post_name = ''Kennedy'', post_position = IntegerInput 1\<rparr>"
  let ?q = "\<lparr>post_code = ''SFO'', post_name = ''San Francisco'', post_position = IntegerInput 2\<rparr>"
  have r: "reachable (\<lambda>_. True) (fst (AddAirportView_post (\<lambda>_. True) empty_db ?p))"
    by (rule reachable_add_airport[OF reachable_empty])
  have v: "fst (AddAirportView_post (\<lambda>_. True) empty_db ?p)
     = \<lparr>airports = [\<lparr>code = ''JFK'', name = ''Kennedy'', position = 1\<rparr>], routes = [], next_pk = 1\<rparr>"
    by code_simp
  have u: "positions_unique test_db" "2 \<in> position ` set (airports test_db)"
    by (simp_all add: test_defs positions_unique_def)
  have w: "AddAirportView_post (\<lambda>_. True) test_db ?q
     = (test_db, Inr (Render ''routes/add_airport.html'' Please_correct_the_errors
          [(''position'', PositionTaken 2 ''LAX'' ''Los Angeles International Airport'')]))"
    by code_simp
  from position_unique_invariant[of "\<lambda>_. True" "fst (AddAirportView_post (\<lambda>_. True) empty_db ?p)"]
    position_unique_invariant[of "\<lambda>_. True" test_db ?q _ _ _ _ _ 2] r v u w
  show ?thesis by simp
qed

text \<open>
  Claim C9. In every reachable state each route's source and destination are codes of
  stored airports. The model's delete of an airport never refuses: it removes the
  airport together with every route that has it as source or destination
  (\<^verbatim>\<open>on_delete=CASCADE\<close>), which keeps the references intact. The view \<^verbatim>\<open>delete_airport\<close>
  changes the database only by this delete, and only for a stored airport without
  routes: for a stored airport with a route the view leaves the database as it is,
  where the model's delete would have removed the airport.
\<close>

theorem cascade_keeps_references:
  "(reachable rng d \<longrightarrow> references_exist d)
   \<and> airports (Airport_delete d a) = filter (\<lambda>x. code x \<noteq> code a) (airports d)
   \<and> routes (Airport_delete d a)
       = filter (\<lambda>r. source r \<noteq> code a \<and> destination r \<noteq> code a) (routes d)
   \<and> (references_exist d \<longrightarrow> references_exist (Airport_delete d a))
   \<and> (fst (delete_airport d c) \<noteq> d \<longrightarrow>
        (\<exists>b\<in>set (airports d). code b = c \<and> outgoing_routes d b = [] \<and> incoming_routes d b = []
            \<and> fst (delete_airport d c) = Airport_delete d b))
   \<and> (a \<in> set (airports d) \<and> codes_unique d
        \<and> (\<exists>r\<in>set (routes d). source r = code a \<or> destination r = code a) \<longrightarrow>
        fst (delete_airport d (code a)) = d \<and> a \<notin> set (airports (Airport_delete d a)))"
proof (intro conjI impI)
  assume "reachable rng d"
  then show "references_exist d" by (rule reachable_references_exist)
next
  show "airports (Airport_delete d a) = filter (\<lambda>x. code x \<noteq> code a) (airports d)"
    "routes (Airport_delete d a)
       = filter (\<lambda>r. source r \<noteq> code a \<and> destination r \<noteq> code a) (routes d)"
    by (simp_all add: Airport_delete_def)
next
  assume "references_exist d"
  then show "references_exist (Airport_delete d a)" by (rule references_exist_Airport_delete)
next
  assume "fst (delete_airport d c) \<noteq> d"
  then show "\<exists>b\<in>set (airports d). code b = c \<and> outgoing_routes d b = [] \<and> incoming_routes d b = []
            \<and> fst (delete_airport d c) = Airport_delete d b"
    by (auto simp: delete_airport_def Let_def set_Airport_objects
        split: option.splits if_splits dest!: find_Some_mem)
next
  assume h: "a \<in> set (airports d) \<and> codes_unique d
        \<and> (\<exists>r\<in>set (routes d). source r = code a \<or> destination r = code a)"
  then have found: "find (\<lambda>x. code x = code a) (Airport_objects d) = Some a"
    by (intro find_code_unique[where ys = "airports d"])
      (simp_all add: set_Airport_objects codes_unique_def)
  from h have "0 < length (outgoing_routes d a) + length (incoming_routes d a)"
    by (auto simp: outgoing_routes_def incoming_routes_def filter_empty_conv)
  with found show "fst (delete_airport d (code a)) = d"
    by (simp add: delete_airport_def Let_def)
  show "a \<notin> set (airports (Airport_delete d a))"
    by (simp add: Airport_delete_def)
qed

theorem cascade_keeps_references_witness:
  "reachable (\<lambda>_. True) empty_db
   \<and> references_exist test_db \<and> codes_unique test_db \<and> LAX \<in> set (airports test_db)
   \<and> Airport_delete test_db LAX = \<lparr>airports = [JFK, ORD], routes = [], next_pk = 3\<rparr>
   \<and> delete_airport test_db ''LAX''
       = (test_db, Inr (Redirect ''routes:airport_list'' (Cannot_delete_has_routes 2)))
   \<and> fst (delete_airport one_route_db ''ORD'') = Airport_delete one_route_db ORD"
proof -
  have h: "references_exist test_db" "codes_unique test_db" "LAX \<in> set (airports test_db)"
    "\<exists>r\<in>set (routes test_db). source r = code LAX \<or> destination r = code LAX"
    by (simp_all add: test_defs references_exist_def codes_unique_def)
  have v: "Airport_delete test_db LAX = \<lparr>airports = [JFK, ORD], routes = [], next_pk = 3\<rparr>"
    "delete_airport test_db ''LAX''
       = (test_db, Inr (Redirect ''routes:airport_list'' (Cannot_delete_has_routes 2)))"
    "fst (delete_airport one_route_db ''ORD'') = Airport_delete one_route_db ORD"
    "fst (delete_airport one_route_db ''ORD'') \<noteq> one_route_db"
    by code_simp+
  from cascade_keeps_references[of "\<lambda>_. True" empty_db LAX]
    cascade_keeps_references[of "\<lambda>_. True" test_db LAX "''LAX''"]
    cascade_keeps_references[of "\<lambda>_. True" one_route_db LAX "''ORD''"]
    reachable_empty[of "\<lambda>_. True"] h v
  show ?thesis by simp
qed

section \<open>Facts about strings\<close>












section \<open>The fields of the airport form\<close>





section \<open>The airport form as a whole\<close>













section \<open>Claims about registration\<close>





text \<open>
  Claim C5. When both endpoints are stored airports with different codes and the form
  field refuses the distance (none posted, no integer, or below 1), the \<^verbatim>\<open>Route\<close> object
  that \<^verbatim>\<open>Route.clean\<close> then checks has no distance, and the comparison
  \<^verbatim>\<open>self.distance <= 0\<close> raises \<^verbatim>\<open>TypeError\<close>: the submission ends in that exception, which
  leaves the view, and not in a validation error. The database is as before.
\<close>

theorem route_registration_unset_distance:
  assumes "ModelChoiceField_clean d (post_source p) = Inr s"
    and "ModelChoiceField_clean d (post_destination p) = Inr t"
    and "code s \<noteq> code t"
    and "IntegerField_clean (post_distance p) = Inl m"
  shows "AirportRouteForm_full_clean rng d p = Raise TypeError
         \<and> AddRouteView_post rng now d p = (d, Inl TypeError)"
proof -
  have "Route_clean \<lparr>inst_source = Some s, inst_destination = Some t, inst_distance = None\<rparr>
        = Inl TypeError"
    using assms(3) by (simp add: Route_clean_def)
  then have "AirportRouteForm_full_clean rng d p = Raise TypeError"
    using assms(1,2,4)
    by (simp add: AirportRouteForm_full_clean_def sum_option_def Route_full_clean_def Let_def)
  then show ?thesis by (simp add: AddRouteView_post_def)
qed

theorem route_registration_unset_distance_witness:
  "ModelChoiceField_clean test_db ''JFK'' = Inr JFK
   \<and> ModelChoiceField_clean test_db ''ORD'' = Inr ORD
   \<and> code JFK \<noteq> code ORD
   \<and> IntegerField_clean (IntegerInput 0) = Inl MinValue
   \<and> AddRouteView_post (\<lambda>_. True) 7 test_db
        \<lparr>post_source = ''JFK'', post_destination = ''ORD'', post_distance = IntegerInput 0\<rparr>
      = (test_db, Inl TypeError)"
proof -
  let ?p = "\<lparr>post_source = ''JFK'', post_destination = ''ORD'', post_distance = IntegerInput 0\<rparr>"
  have s: "ModelChoiceField_clean test_db (post_source ?p) = Inr JFK"
    "ModelChoiceField_clean test_db (post_destination ?p) = Inr ORD"
    by code_simp+
  have c: "code JFK \<noteq> code ORD" by (simp add: JFK_def ORD_def)
  have k: "IntegerField_clean (post_distance ?p) = Inl MinValue"
    by (simp add: IntegerField_clean_def)
  from route_registration_unset_distance[OF s c k, of "\<lambda>_. True" 7] s c k
  show ?thesis by simp
qed

text \<open>
  Claim C8. Each of the four writing views leaves the database as it is unless it
  answers with its success message. But a failure is not always turned into an error
  message: when the form field refuses the source of a route submission, \<^verbatim>\<open>Route.clean\<close>
  reads the source that is not set, and the exception leaves \<^verbatim>\<open>form.is_valid()\<close>, which
  the view calls outside its \<^verbatim>\<open>try\<close>.
\<close>

theorem write_failure_handling:
  "(snd (AddAirportView_post rng d p) \<noteq> Inr (Redirect ''routes:add_airport'' Added_successfully)
      \<longrightarrow> fst (AddAirportView_post rng d p) = d)
   \<and> (snd (AddRouteView_post rng now d q) \<noteq> Inr (Redirect ''routes:add_route'' Added_successfully)
      \<longrightarrow> fst (AddRouteView_post rng now d q) = d)
   \<and> (snd (delete_airport d c) \<noteq> Inr (Redirect ''routes:airport_list'' Deleted_successfully)
      \<longrightarrow> fst (delete_airport d c) = d)
   \<and> (snd (delete_route d k) \<noteq> Inr (Redirect ''routes:route_list'' Deleted_successfully)
      \<longrightarrow> fst (delete_route d k) = d)
   \<and> (ModelChoiceField_clean d (post_source q) = Inl m \<longrightarrow>
        AddRouteView_post rng now d q = (d, Inl (RelatedObjectDoesNotExist ''source'')))"
proof (intro conjI impI)
  assume "snd (AddAirportView_post rng d p) \<noteq> Inr (Redirect ''routes:add_airport'' Added_successfully)"
  with AddAirportView_post_cases[of rng d p] show "fst (AddAirportView_post rng d p) = d"
    by auto
next
  assume "snd (AddRouteView_post rng now d q) \<noteq> Inr (Redirect ''routes:add_route'' Added_successfully)"
  with AddRouteView_post_cases[of rng now d q] show "fst (AddRouteView_post rng now d q) = d"
    by auto
next
  assume "snd (delete_airport d c) \<noteq> Inr (Redirect ''routes:airport_list'' Deleted_successfully)"
  then show "fst (delete_airport d c) = d"
    by (auto simp: delete_airport_def Let_def split: option.splits if_splits)
next
  assume "snd (delete_route d k) \<noteq> Inr (Redirect ''routes:route_list'' Deleted_successfully)"
  then show "fst (delete_route d k) = d"
    by (auto simp: delete_route_def split: option.splits)
next
  assume "ModelChoiceField_clean d (post_source q) = Inl m"
  then have "AirportRouteForm_full_clean rng d q = Raise (RelatedObjectDoesNotExist ''source'')"
    by (simp add: AirportRouteForm_full_clean_def sum_option_def Route_full_clean_def
        Route_clean_def Let_def)
  then show "AddRouteView_post rng now d q = (d, Inl (RelatedObjectDoesNotExist ''source''))"
    by (simp add: AddRouteView_post_def)
qed

theorem write_failure_handling_witness:
  "ModelChoiceField_clean test_db [] = Inl Required
   \<and> AddRouteView_post (\<lambda>_. True) 7 test_db
        \<lparr>post_source = [], post_destination = ''LAX'', post_distance = IntegerInput 5\<rparr>
      = (test_db, Inl (RelatedObjectDoesNotExist ''source''))
   \<and> AddAirportView_post (\<lambda>_. True) test_db
        \<lparr>post_code = ''JFK'', post_name = ''Duplicate Airport'', post_position = IntegerInput 5\<rparr>
      = (test_db, Inr (Render ''routes/add_airport.html'' Please_correct_the_errors
                         [(''code'', Unique)]))
   \<and> delete_airport test_db ''JFK''
      = (test_db, Inr (Redirect ''routes:airport_list'' (Cannot_delete_has_routes 1)))
   \<and> delete_route test_db 9 = (test_db, Inl Http404)"
proof -
  let ?q = "\<lparr>post_source = [], post_destination = ''LAX'', post_distance = IntegerInput 5\<rparr>"
  let ?p = "\<lparr>post_code = ''JFK'', post_name = ''Duplicate Airport'',
              post_position = IntegerInput 5\<rparr>"
  have m: "ModelChoiceField_clean test_db (post_source ?q) = Inl Required"
    by (simp add: ModelChoiceField_clean_def)
  have v: "AddAirportView_post (\<lambda>_. True) test_db ?p
      = (test_db, Inr (Render ''routes/add_airport.html'' Please_correct_the_errors
                         [(''code'', Unique)]))"
    "delete_airport test_db ''JFK''
      = (test_db, Inr (Redirect ''routes:airport_list'' (Cannot_delete_has_routes 1)))"
    "delete_route test_db 9 = (test_db, Inl Http404)"
    by code_simp+
  from write_failure_handling[of "\<lambda>_. True" test_db ?p 7 ?q "''JFK''" 9 Required] m v
  show ?thesis by simp
qed

end
